theory Spec2Isabelle
  imports Complex_Main "HOL-Library.Product_Lexorder" "HOL-Library.AList" "HOL-Library.Multiset"
begin

section \<open>JavaScript values used by the aggregation code\<close>

text \<open>
  Numbers are modelled as exact rationals (an idealisation of IEEE doubles), with \<open>NaN\<close>,
  \<open>undefined\<close> and \<open>null\<close> as separate values, so that a missing or non-numeric
  \<open>amount\<close> field is an input of the model. String amounts are outside the model.
\<close>

datatype jsval = JNum rat | JNaN | JUndefined | JNull

text \<open>\<open>ToNumber\<close>; the result \<open>None\<close> stands for \<open>NaN\<close>.\<close>

fun toNumber :: "jsval \<Rightarrow> rat option" where
  "toNumber (JNum r) = Some r"
| "toNumber JNaN = None"
| "toNumber JUndefined = None"
| "toNumber JNull = Some 0"

text \<open>\<open>a + b\<close> and \<open>a - b\<close> on these values: both operands are converted with \<open>ToNumber\<close>.\<close>

definition js_add :: "jsval \<Rightarrow> jsval \<Rightarrow> jsval" where
  "js_add a b = (case toNumber a of None \<Rightarrow> JNaN
                 | Some x \<Rightarrow> (case toNumber b of None \<Rightarrow> JNaN | Some y \<Rightarrow> JNum (x + y)))"

definition js_sub :: "jsval \<Rightarrow> jsval \<Rightarrow> jsval" where
  "js_sub a b = (case toNumber a of None \<Rightarrow> JNaN
                 | Some x \<Rightarrow> (case toNumber b of None \<Rightarrow> JNaN | Some y \<Rightarrow> JNum (x - y)))"



text \<open>
  \<open>Array.prototype.sort(comparefn)\<close>: a stable sort; a comparator result that is \<open>NaN\<close>
  counts as \<open>+0\<close> (SortCompare). The model is the stable insertion sort, which is the
  result of every stable sort when the comparator is a consistent order.
\<close>

definition sortCompare :: "('a \<Rightarrow> 'a \<Rightarrow> jsval) \<Rightarrow> 'a \<Rightarrow> 'a \<Rightarrow> rat" where
  "sortCompare comparefn x y = (case toNumber (comparefn x y) of None \<Rightarrow> 0 | Some v \<Rightarrow> v)"

fun js_insert :: "('a \<Rightarrow> 'a \<Rightarrow> jsval) \<Rightarrow> 'a \<Rightarrow> 'a list \<Rightarrow> 'a list" where
  "js_insert comparefn x [] = [x]"
| "js_insert comparefn x (y # ys) =
     (if sortCompare comparefn x y \<le> 0 then x # y # ys else y # js_insert comparefn x ys)"

definition js_sort :: "('a \<Rightarrow> 'a \<Rightarrow> jsval) \<Rightarrow> 'a list \<Rightarrow> 'a list" where
  "js_sort comparefn xs = foldr (js_insert comparefn) xs []"

text \<open>\<open>parseFloat(x.toFixed(2))\<close>: the nearest multiple of 0.01, a tie going away from zero.\<close>

definition toFixed2 :: "rat \<Rightarrow> rat" where
  "toFixed2 x = (if x < 0 then - (of_int \<lfloor>- x * 100 + 1 / 2\<rfloor> / 100)
                 else of_int \<lfloor>x * 100 + 1 / 2\<rfloor> / 100)"

section \<open>Calendar dates\<close>

text \<open>
  A date field holds an ISO calendar string \<open>YYYY-MM-DD\<close>, modelled as the triple
  (year, month, day) with the month counted from 1. \<open>new Date(s)\<close> of such a string is
  modelled by the triple itself: \<open>getFullYear\<close> and \<open>getMonth\<close> read its calendar
  fields (the local time zone is taken to be at or ahead of UTC), and the order of two
  time values is the lexicographic order of the triples.
\<close>

type_synonym isodate = "int \<times> nat \<times> nat"

definition getFullYear :: "isodate \<Rightarrow> int" where
  "getFullYear d = fst d"

definition getMonth :: "isodate \<Rightarrow> int" where
  "getMonth d = int (fst (snd d)) - 1"

text \<open>The sign of \<open>new Date(a) - new Date(b)\<close>; a sort only reads the sign.\<close>

definition date_minus :: "isodate \<Rightarrow> isodate \<Rightarrow> jsval" where
  "date_minus a b = JNum (if a < b then - 1 else if a = b then 0 else 1)"

text \<open>
  \<open>new Date(year, monthIndex, 1)\<close>: a year from 0 to 99 means 1900 + year, and a month
  index outside 0..11 carries into the year.
\<close>

definition newDate1 :: "int \<Rightarrow> int \<Rightarrow> isodate" where
  "newDate1 y monthIndex =
     (let y' = (if 0 \<le> y \<and> y \<le> 99 then 1900 + y else y)
      in (y' + monthIndex div 12, nat (monthIndex mod 12) + 1, 1))"

section \<open>Transactions and the activity check\<close>

text \<open>
  An income or expense document. \<open>endDate\<close> is \<open>None\<close> when the field is missing or the
  empty string (both are falsy in the source). The \<open>history\<close> log is not read by the
  aggregation and is left out.
\<close>

record transaction =
  amount :: jsval
  description :: string
  category :: string
  type :: string
  date :: isodate
  isRecurring :: bool
  frequency :: string
  endDate :: "isodate option"

definition isTransactionActiveInMonth :: "transaction \<Rightarrow> isodate \<Rightarrow> bool" where
  "isTransactionActiveInMonth transaction selectedMonthDate =
     (let startDate = date transaction;
          startsBeforeOrInSelectedMonth =
            (getFullYear startDate < getFullYear selectedMonthDate \<or>
             (getFullYear startDate = getFullYear selectedMonthDate \<and>
              getMonth startDate \<le> getMonth selectedMonthDate));
          endsAfterOrInSelectedMonth =
            (case endDate transaction of
               None \<Rightarrow> True
             | Some e \<Rightarrow>
                 getFullYear e > getFullYear selectedMonthDate \<or>
                 (getFullYear e = getFullYear selectedMonthDate \<and>
                  getMonth e \<ge> getMonth selectedMonthDate))
      in startsBeforeOrInSelectedMonth \<and> endsAfterOrInSelectedMonth)"

text \<open>The callback given to \<open>filter\<close> in \<open>filteredIncome\<close> and \<open>filteredExpenses\<close>.\<close>

definition activeInSelectedMonth :: "isodate \<Rightarrow> transaction \<Rightarrow> bool" where
  "activeInSelectedMonth selectedMonthDate item =
     (if isRecurring item \<and> frequency item = ''Monthly''
      then isTransactionActiveInMonth item selectedMonthDate
      else (let itemDate = date item
            in getFullYear itemDate = getFullYear selectedMonthDate \<and>
               getMonth itemDate = getMonth selectedMonthDate))"




section \<open>Monthly Overview\<close>

text \<open>
  \<open>filteredIncome\<close> and \<open>filteredExpenses\<close> (two copies of one body in the source): the
  records active in the selected month, sorted by date, newest first.
\<close>

definition filteredIncome :: "transaction list \<Rightarrow> int \<Rightarrow> int \<Rightarrow> transaction list" where
  "filteredIncome income selectedMonth selectedYear =
     (let selectedMonthDate = newDate1 selectedYear (selectedMonth - 1)
      in js_sort (\<lambda>a b. date_minus (date b) (date a))
           (filter (activeInSelectedMonth selectedMonthDate) income))"

definition filteredExpenses :: "transaction list \<Rightarrow> int \<Rightarrow> int \<Rightarrow> transaction list" where
  "filteredExpenses expenses selectedMonth selectedYear =
     (let selectedMonthDate = newDate1 selectedYear (selectedMonth - 1)
      in js_sort (\<lambda>a b. date_minus (date b) (date a))
           (filter (activeInSelectedMonth selectedMonthDate) expenses))"

text \<open>
  The value that a sum reads from an amount: \<open>ToNumber\<close> of it where that is a number.
  \<open>convertible\<close> holds of numbers and \<open>null\<close>, not of \<open>undefined\<close> and \<open>NaN\<close>.
\<close>

definition numOf :: "jsval \<Rightarrow> rat" where
  "numOf v = (case toNumber v of None \<Rightarrow> 0 | Some r \<Rightarrow> r)"

definition convertible :: "jsval \<Rightarrow> bool" where
  "convertible v = (toNumber v \<noteq> None)"

text \<open>\<open>xs.reduce((sum, item) => sum + item.amount, 0)\<close>.\<close>

definition sumAmounts :: "transaction list \<Rightarrow> jsval" where
  "sumAmounts xs = foldl (\<lambda>sum item. js_add sum (amount item)) (JNum 0) xs"

definition totalMonthlyIncome :: "transaction list \<Rightarrow> int \<Rightarrow> int \<Rightarrow> jsval" where
  "totalMonthlyIncome income selectedMonth selectedYear =
     sumAmounts (filteredIncome income selectedMonth selectedYear)"

definition totalMonthlyExpenses :: "transaction list \<Rightarrow> int \<Rightarrow> int \<Rightarrow> jsval" where
  "totalMonthlyExpenses expenses selectedMonth selectedYear =
     sumAmounts (filteredExpenses expenses selectedMonth selectedYear)"

definition monthlyBalance :: "transaction list \<Rightarrow> transaction list \<Rightarrow> int \<Rightarrow> int \<Rightarrow> jsval" where
  "monthlyBalance income expenses selectedMonth selectedYear =
     js_sub (totalMonthlyIncome income selectedMonth selectedYear)
            (totalMonthlyExpenses expenses selectedMonth selectedYear)"







text \<open>
  The document that \<open>addExpense\<close> writes (\<open>updateExpense\<close> writes the same fields); the stored
  \<open>type\<close> is derived from \<open>isRecurring\<close> here, and read back by \<open>expenseSummaryByType\<close>.
\<close>

definition typeOfRecurring :: "bool \<Rightarrow> string" where
  "typeOfRecurring r = (if r then ''Recurring'' else ''One-Off'')"

definition newExpense ::
  "jsval \<Rightarrow> string \<Rightarrow> string \<Rightarrow> isodate \<Rightarrow> bool \<Rightarrow> string \<Rightarrow> isodate option \<Rightarrow> transaction" where
  "newExpense amount' description' category' date' isRecurring' frequency' endDate' =
     \<lparr>amount = amount', description = description', category = category',
      type = typeOfRecurring isRecurring',
      date = date', isRecurring = isRecurring',
      frequency = (if isRecurring' then frequency' else []),
      endDate = (if isRecurring' then endDate' else None)\<rparr>"

text \<open>Example records for the concrete instances below.\<close>

definition exampleExpenses :: "transaction list" where
  "exampleExpenses =
     [\<lparr>amount = JNum 10, description = ''cinema'', category = ''Personal'', type = ''One-Off'',
       date = (2024, 3, 5), isRecurring = False, frequency = [], endDate = None\<rparr>,
      \<lparr>amount = JNum 20, description = ''rent'', category = ''Shared'', type = ''Recurring'',
       date = (2024, 1, 1), isRecurring = True, frequency = ''Monthly'', endDate = None\<rparr>,
      \<lparr>amount = JNum 5, description = ''coffee'', category = ''Personal'', type = ''One-Off'',
       date = (2024, 3, 7), isRecurring = False, frequency = [], endDate = None\<rparr>]"

definition incomeMissingAmount :: transaction where
  "incomeMissingAmount =
     \<lparr>amount = JUndefined, description = ''bonus'', category = [], type = [],
      date = (2024, 3, 10), isRecurring = False, frequency = [], endDate = None\<rparr>"

definition incomeSalary :: transaction where
  "incomeSalary =
     \<lparr>amount = JNum 100, description = ''salary'', category = [], type = [],
      date = (2024, 3, 15), isRecurring = False, frequency = [], endDate = None\<rparr>"






section \<open>Dashboard\<close>






section \<open>Net worth projection\<close>






section \<open>Assets\<close>

text \<open>
  An asset document. Values are numbers (the write paths store \<open>parseFloat\<close> results that
  the forms have checked). A field that may be missing from a stored document, and that
  the source guards (\<open>|| []\<close>, \<open>|| 0\<close>, \<open>Array.isArray\<close>), is an option.
\<close>

record entry =
  date_e :: isodate
  value_e :: rat
  type_e :: "string option"

record contribution =
  amount_c :: rat
  date_c :: isodate

record asset =
  id_a :: string
  name :: string
  type_a :: string
  initialValue :: rat
  currentValue :: "rat option"
  contributions :: "contribution list option"
  valueHistory :: "entry list option"

text \<open>\<open>asset.valueHistory || []\<close>.\<close>

definition historyOf :: "asset \<Rightarrow> entry list" where
  "historyOf a = (case valueHistory a of None \<Rightarrow> [] | Some h \<Rightarrow> h)"

text \<open>\<open>[...(asset.valueHistory || [])].sort((a, b) => new Date(a.date) - new Date(b.date))\<close>.\<close>

definition sortedValueHistory :: "asset \<Rightarrow> entry list" where
  "sortedValueHistory a = js_sort (\<lambda>x y. date_minus (date_e x) (date_e y)) (historyOf a)"

subsection \<open>Value History Merger\<close>

text \<open>
  A \<open>Map\<close> is an association list in insertion order: \<open>AList.update\<close> replaces the value
  of a key in place and appends a new key at the end, as \<open>Map.prototype.set\<close> does.
\<close>

type_synonym valueMap = "(string \<times> rat) list"
type_synonym dailyMap = "(isodate \<times> valueMap) list"

record netWorthPoint =
  date_p :: isodate
  totalNetWorth :: rat

record netWorthHistory =
  chartData :: "netWorthPoint list"
  detailedDailyValues :: dailyMap

text \<open>
  The body of the inner \<open>forEach\<close> of the first pass: create the day's map if the date is
  new, then set the asset's value in it.
\<close>

definition recordEntry :: "string \<Rightarrow> dailyMap \<Rightarrow> entry \<Rightarrow> dailyMap" where
  "recordEntry assetId dailyValuesMap e =
     (let d = date_e e;
          m = (if map_of dailyValuesMap d = None then dailyValuesMap @ [(d, [])]
               else dailyValuesMap)
      in AList.update d
           (AList.update assetId (value_e e) (case map_of m d of None \<Rightarrow> [] | Some inner \<Rightarrow> inner))
           m)"

definition populateDailyValues :: "asset list \<Rightarrow> dailyMap" where
  "populateDailyValues assets =
     foldl (\<lambda>dailyValuesMap a. foldl (recordEntry (id_a a)) dailyValuesMap (sortedValueHistory a))
       [] assets"

text \<open>\<open>dailyValuesMap.get(date)?.get(asset.id)\<close>; \<open>None\<close> is \<open>undefined\<close>.\<close>

definition valueOnDate :: "dailyMap \<Rightarrow> isodate \<Rightarrow> string \<Rightarrow> rat option" where
  "valueOnDate dailyValuesMap d assetId =
     (case map_of dailyValuesMap d of None \<Rightarrow> None | Some inner \<Rightarrow> map_of inner assetId)"

text \<open>The loop over the assets inside the second pass.\<close>

definition carryForward :: "dailyMap \<Rightarrow> asset list \<Rightarrow> isodate \<Rightarrow> valueMap \<Rightarrow> valueMap" where
  "carryForward dailyValuesMap assets d currentAssetValuesAtDate =
     foldl (\<lambda>cur a. case valueOnDate dailyValuesMap d (id_a a) of
                       None \<Rightarrow> cur
                     | Some v \<Rightarrow> AList.update (id_a a) v cur)
       currentAssetValuesAtDate assets"

text \<open>The second pass; the state is the carried map and the series built so far.\<close>

definition aggregateStep ::
  "dailyMap \<Rightarrow> asset list \<Rightarrow> valueMap \<times> netWorthPoint list \<Rightarrow> isodate
     \<Rightarrow> valueMap \<times> netWorthPoint list" where
  "aggregateStep dailyValuesMap assets st d =
     (let cur = carryForward dailyValuesMap assets d (fst st);
          totalNetWorthOnDate = foldl (\<lambda>total v. total + v) 0 (map snd cur)
      in (cur, snd st @ [\<lparr>date_p = d, totalNetWorth = toFixed2 totalNetWorthOnDate\<rparr>]))"

definition calculateNetWorthHistory :: "asset list \<Rightarrow> netWorthHistory" where
  "calculateNetWorthHistory assets =
     (let dailyValuesMap = populateDailyValues assets;
          uniqueDates = js_sort date_minus (map fst dailyValuesMap);
          aggregatedHistory = snd (foldl (aggregateStep dailyValuesMap assets) ([], []) uniqueDates);
          detailed = map (\<lambda>(d, innerMap). (d, foldl (\<lambda>obj (k, v). AList.update k v obj) [] innerMap))
                       dailyValuesMap
      in \<lparr>chartData = aggregatedHistory, detailedDailyValues = detailed\<rparr>)"

text \<open>
  The specification's reading of a day: the most recent entry of an asset on or before a
  date is the last entry, in the date-sorted history, whose date is not after it.
\<close>

definition latestOnOrBefore :: "asset \<Rightarrow> isodate \<Rightarrow> entry option" where
  "latestOnOrBefore a d =
     (case filter (\<lambda>e. date_e e \<le> d) (sortedValueHistory a) of
        [] \<Rightarrow> None
      | es \<Rightarrow> Some (last es))"

definition allDates :: "asset list \<Rightarrow> isodate set" where
  "allDates assets = (\<Union>a \<in> set assets. date_e ` set (historyOf a))"

text \<open>
  The value of the entry of an asset dated exactly \<open>d\<close> (the later inserted of several),
  and the net worth of a day in the specification's words: the sum, over the assets that
  have an entry on or before the day, of the value of the most recent such entry.
\<close>

definition entryValueOn :: "asset \<Rightarrow> isodate \<Rightarrow> rat option" where
  "entryValueOn a d =
     (case filter (\<lambda>e. date_e e = d) (sortedValueHistory a) of
        [] \<Rightarrow> None
      | es \<Rightarrow> Some (value_e (last es)))"

definition netWorthOn :: "asset list \<Rightarrow> isodate \<Rightarrow> rat" where
  "netWorthOn as d = (\<Sum>e\<leftarrow>List.map_filter (\<lambda>a. latestOnOrBefore a d) as. value_e e)"

text \<open>The second pass as a recursion over the dates that are left.\<close>

fun series :: "dailyMap \<Rightarrow> asset list \<Rightarrow> valueMap \<Rightarrow> isodate list \<Rightarrow> netWorthPoint list" where
  "series dailyValuesMap as cur [] = []"
| "series dailyValuesMap as cur (d # ds) =
     (let cur' = carryForward dailyValuesMap as d cur
      in \<lparr>date_p = d, totalNetWorth = toFixed2 (sum_list (map snd cur'))\<rparr> #
         series dailyValuesMap as cur' ds)"

text \<open>The value that the carried map holds for an asset once the dates in \<open>P\<close> are processed.\<close>

definition knownAfter :: "asset \<Rightarrow> isodate set \<Rightarrow> rat option" where
  "knownAfter a P =
     (case filter (\<lambda>e. date_e e \<in> P) (sortedValueHistory a) of
        [] \<Rightarrow> None
      | es \<Rightarrow> Some (value_e (last es)))"

text \<open>Example assets: A with one entry of 100 on 2024-01-01, B with one of 50 on 2024-01-02.\<close>

definition assetA :: asset where
  "assetA =
     \<lparr>id_a = ''A'', name = ''Asset A'', type_a = ''Cash'', initialValue = 100,
      currentValue = Some 100, contributions = Some [],
      valueHistory = Some [\<lparr>date_e = (2024, 1, 1), value_e = 100, type_e = None\<rparr>]\<rparr>"

definition assetB :: asset where
  "assetB =
     \<lparr>id_a = ''B'', name = ''Asset B'', type_a = ''Cash'', initialValue = 50,
      currentValue = Some 50, contributions = Some [],
      valueHistory = Some [\<lparr>date_e = (2024, 1, 2), value_e = 50, type_e = None\<rparr>]\<rparr>"

subsection \<open>Writing assets\<close>


record appState =
  ready :: bool
  assets :: "asset list"










section \<open>Sorting\<close>

lemma js_insert_insort_key:
  assumes "\<And>x y. (sortCompare cmp x y \<le> 0) = (f x \<le> f y)"
  shows "js_insert cmp x ys = insort_key f x ys"
  by (induction ys) (simp_all add: assms)

lemma js_sort_sort_key:
  assumes "\<And>x y. (sortCompare cmp x y \<le> 0) = (f x \<le> f y)"
  shows "js_sort cmp xs = sort_key f xs"
  by (induction xs) (simp_all add: js_sort_def js_insert_insort_key [OF assms])

lemma mset_js_insert: "mset (js_insert cmp x ys) = add_mset x (mset ys)"
  by (induction ys) simp_all

lemma mset_js_sort: "mset (js_sort cmp xs) = mset xs"
  by (induction xs) (simp_all add: js_sort_def mset_js_insert)

lemma set_js_sort: "set (js_sort cmp xs) = set xs"
  using mset_js_sort [of cmp xs] by (metis set_mset_mset)

lemma sortCompare_date_minus:
  "(sortCompare (\<lambda>x y. date_minus (f x) (f y)) a b \<le> 0) = (f a \<le> f b)"
  by (auto simp: sortCompare_def date_minus_def)

lemma js_sort_by_date: "js_sort (\<lambda>x y. date_minus (f x) (f y)) xs = sort_key f xs"
  by (rule js_sort_sort_key) (rule sortCompare_date_minus)




section \<open>A recurring record whose end date is before its start date\<close>




section \<open>Sums of amounts\<close>

lemma foldl_js_add_JNaN:
  "foldl (\<lambda>sum item. js_add sum (f item)) JNaN xs = JNaN"
  by (induction xs) (simp_all add: js_add_def)

lemma foldl_js_add_JNum:
  "foldl (\<lambda>sum item. js_add sum (f item)) (JNum a) xs =
     (if list_all (\<lambda>x. convertible (f x)) xs
      then JNum (a + sum_list (map (\<lambda>x. numOf (f x)) xs)) else JNaN)"
proof (induction xs arbitrary: a)
  case Nil
  then show ?case by simp
next
  case (Cons x xs)
  show ?case
  proof (cases "toNumber (f x)")
    case None
    then have "js_add (JNum a) (f x) = JNaN" by (simp add: js_add_def)
    with None show ?thesis by (simp add: convertible_def foldl_js_add_JNaN)
  next
    case (Some r)
    then have "js_add (JNum a) (f x) = JNum (a + r)" by (simp add: js_add_def)
    with Some show ?thesis by (simp add: convertible_def numOf_def Cons.IH add.assoc)
  qed
qed

lemma sumAmounts_char:
  "sumAmounts xs =
     (if list_all (\<lambda>x. convertible (amount x)) xs
      then JNum (sum_list (map (\<lambda>x. numOf (amount x)) xs)) else JNaN)"
  by (simp add: sumAmounts_def foldl_js_add_JNum)



section \<open>Dashboard and Monthly Overview\<close>





section \<open>Available years\<close>
















section \<open>Rounding to two decimals\<close>

lemma toFixed2_nearest:
  "\<bar>toFixed2 x - x\<bar> \<le> 1 / 200 \<and> (\<exists>k :: int. toFixed2 x = of_int k / 100)"
proof -
  have a: "\<bar>of_int \<lfloor>y + 1 / 2\<rfloor> / 100 - y / 100\<bar> \<le> 1 / 200" for y :: rat
  proof -
    define z :: rat where "z = of_int \<lfloor>y + 1 / 2\<rfloor>"
    have "z \<le> y + 1 / 2" unfolding z_def by (rule of_int_floor_le)
    moreover have "y + 1 / 2 < z + 1" unfolding z_def by linarith
    ultimately have "\<bar>z / 100 - y / 100\<bar> \<le> 1 / 200" by (auto simp: abs_if)
    then show ?thesis by (simp only: z_def)
  qed
  show ?thesis
  proof (cases "x < 0")
    case True
    define q :: rat where "q = of_int \<lfloor>- x * 100 + 1 / 2\<rfloor> / 100"
    have "\<bar>q - (- x * 100) / 100\<bar> \<le> 1 / 200" unfolding q_def by (rule a)
    then have "\<bar>q - (- x)\<bar> \<le> 1 / 200" by simp
    moreover have "- q - x = - (q - (- x))" by simp
    ultimately have "\<bar>- q - x\<bar> \<le> 1 / 200" by (simp only: abs_minus_cancel)
    moreover have "toFixed2 x = - q" using True by (simp add: toFixed2_def q_def)
    moreover have "- q = of_int (- \<lfloor>- x * 100 + 1 / 2\<rfloor>) / 100" by (simp add: q_def)
    ultimately show ?thesis by (simp only: ) blast
  next
    case False
    define q :: rat where "q = of_int \<lfloor>x * 100 + 1 / 2\<rfloor> / 100"
    have "\<bar>q - (x * 100) / 100\<bar> \<le> 1 / 200" unfolding q_def by (rule a)
    then have "\<bar>q - x\<bar> \<le> 1 / 200" by simp
    moreover have "toFixed2 x = q" using False by (simp add: toFixed2_def q_def)
    ultimately show ?thesis unfolding q_def by (simp only: ) blast
  qed
qed

lemma toFixed2_cents: "toFixed2 (of_int k / 100) = of_int k / 100"
proof -
  have "\<lfloor>of_int m + 1 / 2 :: rat\<rfloor> = m" for m :: int
    by (rule floor_unique) simp_all
  from this [of k] this [of "- k"] show ?thesis
    by (auto simp: toFixed2_def)
qed

section \<open>Projection\<close>






section \<open>Expense breakdowns\<close>






















lemma newExpense_type:
  "type (newExpense a d c dt r f e) = typeOfRecurring (isRecurring (newExpense a d c dt r f e))"
  by (simp add: newExpense_def)


lemma filteredExpenses_example:
  "filteredExpenses exampleExpenses 3 2024 =
     [\<lparr>amount = JNum 5, description = ''coffee'', category = ''Personal'', type = ''One-Off'',
       date = (2024, 3, 7), isRecurring = False, frequency = [], endDate = None\<rparr>,
      \<lparr>amount = JNum 10, description = ''cinema'', category = ''Personal'', type = ''One-Off'',
       date = (2024, 3, 5), isRecurring = False, frequency = [], endDate = None\<rparr>,
      \<lparr>amount = JNum 20, description = ''rent'', category = ''Shared'', type = ''Recurring'',
       date = (2024, 1, 1), isRecurring = True, frequency = ''Monthly'', endDate = None\<rparr>]"
  by (simp add: filteredExpenses_def exampleExpenses_def activeInSelectedMonth_def
      isTransactionActiveInMonth_def newDate1_def getFullYear_def getMonth_def js_sort_def
      sortCompare_def date_minus_def)


section \<open>Amounts that are not numbers\<close>

text \<open>
  C5, amended. For every income and expense collection the monthly aggregation returns
  total income, total expenses and balance (no step of it can throw). A record active in
  the month whose amount is \<open>undefined\<close> or \<open>NaN\<close> is not left out: the total of its
  collection is then \<open>NaN\<close>, and so is the balance. When every active amount converts to
  a number (\<open>null\<close> counting as 0) the totals are the sums of the amounts and the balance
  is their difference.
\<close>

theorem monthly_totals_with_unusable_amounts:
  "totalMonthlyIncome inc m y =
     (if list_all (\<lambda>t. convertible (amount t)) (filteredIncome inc m y)
      then JNum (\<Sum>t\<leftarrow>filteredIncome inc m y. numOf (amount t)) else JNaN) \<and>
   totalMonthlyExpenses exps m y =
     (if list_all (\<lambda>t. convertible (amount t)) (filteredExpenses exps m y)
      then JNum (\<Sum>t\<leftarrow>filteredExpenses exps m y. numOf (amount t)) else JNaN) \<and>
   monthlyBalance inc exps m y =
     (if list_all (\<lambda>t. convertible (amount t)) (filteredIncome inc m y) \<and>
         list_all (\<lambda>t. convertible (amount t)) (filteredExpenses exps m y)
      then JNum ((\<Sum>t\<leftarrow>filteredIncome inc m y. numOf (amount t)) -
                 (\<Sum>t\<leftarrow>filteredExpenses exps m y. numOf (amount t)))
      else JNaN)"
  by (simp add: totalMonthlyIncome_def totalMonthlyExpenses_def monthlyBalance_def
      sumAmounts_char js_sub_def)

lemma filteredIncome_example:
  "filteredIncome [incomeMissingAmount, incomeSalary] 3 2024 = [incomeSalary, incomeMissingAmount]"
  by (simp add: filteredIncome_def incomeMissingAmount_def incomeSalary_def
      activeInSelectedMonth_def newDate1_def getFullYear_def getMonth_def js_sort_def
      sortCompare_def date_minus_def)

text \<open>
  C5 as stated fails: with one income record whose amount is missing and one of 100 in
  March 2024, the total income is \<open>NaN\<close>, and so is the balance, where leaving the record
  out would give 100.
\<close>

theorem missing_amount_counterexample:
  "totalMonthlyIncome [incomeMissingAmount, incomeSalary] 3 2024 = JNaN \<and>
   monthlyBalance [incomeMissingAmount, incomeSalary] [] 3 2024 = JNaN \<and>
   totalMonthlyIncome [incomeSalary] 3 2024 = JNum 100"
  by (simp add: totalMonthlyIncome_def monthlyBalance_def totalMonthlyExpenses_def
      filteredExpenses_def js_sort_def filteredIncome_example sumAmounts_def js_add_def js_sub_def)
     (simp add: filteredIncome_def incomeSalary_def incomeMissingAmount_def
      activeInSelectedMonth_def newDate1_def getFullYear_def getMonth_def js_sort_def)

theorem monthly_totals_with_unusable_amounts_witness:
  "totalMonthlyIncome [incomeMissingAmount, incomeSalary] 3 2024 = JNaN \<and>
   totalMonthlyExpenses exampleExpenses 3 2024 = JNum 35 \<and>
   monthlyBalance [incomeSalary] exampleExpenses 3 2024 = JNum 65"
  using monthly_totals_with_unusable_amounts [of "[incomeMissingAmount, incomeSalary]" 3 2024 exampleExpenses]
    monthly_totals_with_unusable_amounts [of "[incomeSalary]" 3 2024 exampleExpenses]
  by (simp add: filteredIncome_example filteredExpenses_example)
     (simp add: filteredIncome_def incomeSalary_def incomeMissingAmount_def
      activeInSelectedMonth_def newDate1_def getFullYear_def getMonth_def js_sort_def
      convertible_def numOf_def)

section \<open>Writing assets: history and current value\<close>



lemma sortedValueHistory_sort_key: "sortedValueHistory a = sort_key date_e (historyOf a)"
  by (simp add: sortedValueHistory_def js_sort_by_date)




lemma find_by_id:
  assumes "distinct (map id_a docs)" and "a \<in> set docs"
  shows "find (\<lambda>x. id_a x = id_a a) docs = Some a"
  using assms
  by (induction docs) (auto simp: image_iff)








section \<open>Value History Merger: the series\<close>

lemma valueOnDate_recordEntry:
  "valueOnDate (recordEntry i dvm e) d' i' =
     (if d' = date_e e \<and> i' = i then Some (value_e e) else valueOnDate dvm d' i')"
  by (auto simp: valueOnDate_def recordEntry_def Let_def update_conv' split: option.splits)

lemma keys_recordEntry:
  "fst ` set (recordEntry i dvm e) = insert (date_e e) (fst ` set dvm)"
  by (auto simp: recordEntry_def Let_def update_keys image_iff split: if_splits
      simp flip: set_map)

lemma distinct_recordEntry:
  "distinct (map fst dvm) \<Longrightarrow> distinct (map fst (recordEntry i dvm e))"
  by (auto simp: recordEntry_def Let_def distinct_update map_of_eq_None_iff)

lemma valueOnDate_recordEntries:
  "valueOnDate (foldl (recordEntry i) dvm es) d i' =
     (if i' = i
      then (case filter (\<lambda>e. date_e e = d) es of
              [] \<Rightarrow> valueOnDate dvm d i'
            | x # xs \<Rightarrow> Some (value_e (last (x # xs))))
      else valueOnDate dvm d i')"
proof (induction es rule: rev_induct)
  case Nil
  then show ?case by simp
next
  case (snoc e es)
  show ?case
  proof (cases "date_e e = d")
    case True
    then show ?thesis
      by (cases "filter (\<lambda>e. date_e e = d) es")
         (auto simp: valueOnDate_recordEntry snoc.IH)
  next
    case False
    then show ?thesis
      by (simp add: valueOnDate_recordEntry snoc.IH)
  qed
qed

lemma keys_recordEntries:
  "fst ` set (foldl (recordEntry i) dvm es) = fst ` set dvm \<union> date_e ` set es"
  by (induction es arbitrary: dvm) (auto simp: keys_recordEntry)

lemma distinct_recordEntries:
  "distinct (map fst dvm) \<Longrightarrow> distinct (map fst (foldl (recordEntry i) dvm es))"
  by (induction es arbitrary: dvm) (simp_all add: distinct_recordEntry)

lemma valueOnDate_asset:
  "valueOnDate (foldl (recordEntry (id_a a)) dvm (sortedValueHistory a)) d i =
     (if i = id_a a
      then (case entryValueOn a d of None \<Rightarrow> valueOnDate dvm d i | Some v \<Rightarrow> Some v)
      else valueOnDate dvm d i)"
  by (simp add: valueOnDate_recordEntries entryValueOn_def split: list.splits)

lemma set_sortedValueHistory: "set (sortedValueHistory a) = set (historyOf a)"
  by (simp add: sortedValueHistory_def set_js_sort)

lemma valueOnDate_populate_fold:
  assumes "distinct (map id_a as)"
  shows "valueOnDate
           (foldl (\<lambda>dvm a. foldl (recordEntry (id_a a)) dvm (sortedValueHistory a)) dvm0 as) d i =
         (case find (\<lambda>a. id_a a = i) as of
            None \<Rightarrow> valueOnDate dvm0 d i
          | Some a \<Rightarrow> (case entryValueOn a d of None \<Rightarrow> valueOnDate dvm0 d i | Some v \<Rightarrow> Some v))"
  using assms
proof (induction as arbitrary: dvm0)
  case Nil
  then show ?case by simp
next
  case (Cons a as)
  then have d: "distinct (map id_a as)" and n: "id_a a \<notin> id_a ` set as" by simp_all
  show ?case
  proof (cases "id_a a = i")
    case True
    then have "find (\<lambda>a. id_a a = i) as = None"
      using n unfolding find_None_iff by (metis imageI)
    moreover have "valueOnDate (foldl (recordEntry i) dvm0 (sortedValueHistory a)) d i =
        (case entryValueOn a d of None \<Rightarrow> valueOnDate dvm0 d i | Some v \<Rightarrow> Some v)"
      using valueOnDate_asset [of a dvm0 d i] True by simp
    ultimately show ?thesis
      using True by (simp add: Cons.IH [OF d])
  next
    case False
    then show ?thesis
      by (simp add: Cons.IH [OF d] valueOnDate_asset split: option.splits)
  qed
qed

lemma valueOnDate_populate:
  assumes "distinct (map id_a as)" and "a \<in> set as"
  shows "valueOnDate (populateDailyValues as) d (id_a a) = entryValueOn a d"
  using valueOnDate_populate_fold [OF assms(1), of "[]" d "id_a a"] find_by_id [OF assms]
  by (simp add: populateDailyValues_def valueOnDate_def split: option.splits)

lemma keys_populate: "fst ` set (populateDailyValues as) = allDates as"
proof -
  have "fst ` set (foldl (\<lambda>dvm a. foldl (recordEntry (id_a a)) dvm (sortedValueHistory a)) dvm0 as) =
        fst ` set dvm0 \<union> allDates as" for dvm0
    by (induction as arbitrary: dvm0)
       (auto simp: allDates_def keys_recordEntries set_sortedValueHistory)
  from this [of "[]"] show ?thesis by (simp add: populateDailyValues_def)
qed

lemma distinct_populate: "distinct (map fst (populateDailyValues as))"
proof -
  have "distinct (map fst dvm0) \<Longrightarrow>
        distinct (map fst (foldl (\<lambda>dvm a. foldl (recordEntry (id_a a)) dvm (sortedValueHistory a)) dvm0 as))"
    for dvm0
    by (induction as arbitrary: dvm0) (simp_all add: distinct_recordEntries)
  from this [of "[]"] show ?thesis by (simp add: populateDailyValues_def)
qed

lemma map_of_carryForward:
  "map_of (carryForward dvm as d cur) i =
     (if i \<in> id_a ` set as
      then (case valueOnDate dvm d i of None \<Rightarrow> map_of cur i | Some v \<Rightarrow> Some v)
      else map_of cur i)"
  unfolding carryForward_def
proof (induction as arbitrary: cur)
  case Nil
  then show ?case by simp
next
  case (Cons a as)
  show ?case
    by (cases "valueOnDate dvm d (id_a a)")
       (auto simp: Cons.IH update_conv' split: option.splits)
qed

lemma keys_carryForward:
  "fst ` set (carryForward dvm as d cur) \<subseteq> fst ` set cur \<union> id_a ` set as"
  unfolding carryForward_def
proof (induction as arbitrary: cur)
  case Nil
  then show ?case by simp
next
  case (Cons a as)
  have "fst ` set (AList.update (id_a a) v cur) = insert (id_a a) (fst ` set cur)" for v
    by (simp add: update_keys flip: set_map) auto
  with Cons.IH show ?case
    by (cases "valueOnDate dvm d (id_a a)") (simp, blast)+
qed

lemma distinct_carryForward:
  "distinct (map fst cur) \<Longrightarrow> distinct (map fst (carryForward dvm as d cur))"
  unfolding carryForward_def
  by (induction as arbitrary: cur) (simp_all add: distinct_update split: option.splits)

lemma foldl_plus_sum_list: "foldl (\<lambda>total v. total + v) a xs = a + sum_list (xs :: rat list)"
  by (induction xs arbitrary: a) (simp_all add: add.assoc)

lemma aggregate_series:
  "snd (foldl (aggregateStep dvm as) (cur, agg) ds) = agg @ series dvm as cur ds"
  by (induction ds arbitrary: cur agg)
     (simp_all add: aggregateStep_def Let_def foldl_plus_sum_list)

lemma sum_carried:
  assumes "distinct (map fst (cur :: valueMap))" and "fst ` set cur \<subseteq> id_a ` set as"
    and "distinct (map id_a as)"
  shows "sum_list (map snd cur) =
         (\<Sum>a\<leftarrow>as. case map_of cur (id_a a) of None \<Rightarrow> 0 | Some v \<Rightarrow> v)"
proof -
  let ?g = "\<lambda>i. case map_of cur i of None \<Rightarrow> (0 :: rat) | Some v \<Rightarrow> v"
  have dc: "distinct cur" using assms(1) by (simp add: distinct_map)
  have inj: "inj_on fst (set cur)" using assms(1) by (simp add: distinct_map)
  have "sum_list (map snd cur) = sum snd (set cur)"
    using dc by (simp add: sum_list_distinct_conv_sum_set)
  also have "\<dots> = sum (\<lambda>p. ?g (fst p)) (set cur)"
    by (rule sum.cong) (auto simp: assms(1))
  also have "\<dots> = sum ?g (fst ` set cur)"
    using inj by (simp add: sum.reindex)
  also have "\<dots> = sum ?g (id_a ` set as)"
  proof (rule sum.mono_neutral_left)
    show "finite (id_a ` set as)" by simp
    show "fst ` set cur \<subseteq> id_a ` set as" by (rule assms(2))
    show "\<forall>i \<in> id_a ` set as - fst ` set cur. ?g i = 0"
      by (auto simp: map_of_eq_None_iff [THEN iffD2])
  qed
  also have "\<dots> = sum (\<lambda>a. ?g (id_a a)) (set as)"
    using assms(3) by (simp add: sum.reindex distinct_map)
  also have "\<dots> = (\<Sum>a\<leftarrow>as. ?g (id_a a))"
    using assms(3) by (simp add: sum_list_distinct_conv_sum_set distinct_map)
  finally show ?thesis .
qed

lemma filter_sorted_insert:
  assumes "sorted (map f xs)" and "\<forall>p \<in> P. p < d"
  shows "filter (\<lambda>x. f x \<in> insert d P) xs =
         filter (\<lambda>x. f x \<in> P) xs @ filter (\<lambda>x. f x = d) xs"
  using assms(1)
proof (induction xs)
  case Nil
  then show ?case by simp
next
  case (Cons x xs)
  then have s: "sorted (map f xs)" and le: "\<forall>y \<in> set xs. f x \<le> f y" by auto
  show ?case
  proof (cases "f x = d")
    case True
    have "f x \<notin> P" using True assms(2) by auto
    moreover have "filter (\<lambda>x. f x \<in> P) xs = []"
      using le True assms(2) by (fastforce simp: filter_empty_conv)
    ultimately show ?thesis
      using True Cons.IH [OF s] by simp
  next
    case False
    then show ?thesis using Cons.IH [OF s] by simp
  qed
qed

lemma sorted_sortedValueHistory: "sorted (map date_e (sortedValueHistory a))"
  by (simp add: sortedValueHistory_sort_key)

lemma knownAfter_insert:
  assumes "\<forall>p \<in> P. p < d"
  shows "knownAfter a (insert d P) =
         (case entryValueOn a d of None \<Rightarrow> knownAfter a P | Some v \<Rightarrow> Some v)"
  unfolding knownAfter_def entryValueOn_def
    filter_sorted_insert [OF sorted_sortedValueHistory assms]
  by (cases "filter (\<lambda>e. date_e e = d) (sortedValueHistory a)";
      cases "filter (\<lambda>e. date_e e \<in> P) (sortedValueHistory a)") simp_all

lemma knownAfter_latest:
  assumes "a \<in> set as" and "P = {x \<in> allDates as. x \<le> d}"
  shows "knownAfter a P = map_option value_e (latestOnOrBefore a d)"
proof -
  have "filter (\<lambda>e. date_e e \<in> P) (sortedValueHistory a) =
        filter (\<lambda>e. date_e e \<le> d) (sortedValueHistory a)"
    using assms by (intro filter_cong refl) (auto simp: allDates_def set_sortedValueHistory)
  then show ?thesis
    by (simp add: knownAfter_def latestOnOrBefore_def split: list.splits)
qed

lemma netWorthOn_sum:
  "netWorthOn as d =
     (\<Sum>a\<leftarrow>as. case map_option value_e (latestOnOrBefore a d) of None \<Rightarrow> 0 | Some v \<Rightarrow> v)"
  unfolding netWorthOn_def
  by (induction as) (simp_all add: List.map_filter_simps split: option.splits)

lemma series_spec:
  assumes ids: "distinct (map id_a as)"
  shows "sorted ds \<Longrightarrow> distinct ds \<Longrightarrow> \<forall>p \<in> P. \<forall>d \<in> set ds. p < d \<Longrightarrow>
         P \<union> set ds = allDates as \<Longrightarrow>
         distinct (map fst cur) \<Longrightarrow> fst ` set cur \<subseteq> id_a ` set as \<Longrightarrow>
         \<forall>a \<in> set as. map_of cur (id_a a) = knownAfter a P \<Longrightarrow>
         series (populateDailyValues as) as cur ds =
           map (\<lambda>d. \<lparr>date_p = d, totalNetWorth = toFixed2 (netWorthOn as d)\<rparr>) ds"
proof (induction ds arbitrary: cur P)
  case Nil
  then show ?case by simp
next
  case (Cons d ds)
  let ?dvm = "populateDailyValues as"
  let ?cur = "carryForward ?dvm as d cur"
  let ?P = "insert d P"
  have Pd: "\<forall>p \<in> P. p < d" using Cons.prems(3) by simp
  have dds: "\<forall>x \<in> set ds. d < x" using Cons.prems(1,2) by (auto simp: less_le)
  have inv: "\<forall>a \<in> set as. map_of ?cur (id_a a) = knownAfter a ?P"
  proof
    fix a assume a: "a \<in> set as"
    have "map_of ?cur (id_a a) =
        (case entryValueOn a d of None \<Rightarrow> map_of cur (id_a a) | Some v \<Rightarrow> Some v)"
      using a by (simp add: map_of_carryForward valueOnDate_populate [OF ids a])
    also have "\<dots> = knownAfter a ?P"
      using a Cons.prems(7) by (simp add: knownAfter_insert [OF Pd] split: option.splits)
    finally show "map_of ?cur (id_a a) = knownAfter a ?P" .
  qed
  have dist: "distinct (map fst ?cur)" using Cons.prems(5) by (rule distinct_carryForward)
  have keys: "fst ` set ?cur \<subseteq> id_a ` set as"
    using keys_carryForward [of ?dvm as d cur] Cons.prems(6) by blast
  have Peq: "?P = {x \<in> allDates as. x \<le> d}"
  proof -
    have "allDates as = P \<union> insert d (set ds)" using Cons.prems(4) by simp
    then show ?thesis using Pd dds by (auto simp: less_le)
  qed
  have "sum_list (map snd ?cur) =
        (\<Sum>a\<leftarrow>as. case map_of ?cur (id_a a) of None \<Rightarrow> 0 | Some v \<Rightarrow> v)"
    by (rule sum_carried [OF dist keys ids])
  also have "\<dots> = (\<Sum>a\<leftarrow>as. case map_option value_e (latestOnOrBefore a d) of
                        None \<Rightarrow> 0 | Some v \<Rightarrow> v)"
    by (rule arg_cong [where f = sum_list], rule map_cong [OF refl])
       (simp add: inv knownAfter_latest [OF _ Peq])
  finally have total: "sum_list (map snd ?cur) = netWorthOn as d"
    by (simp add: netWorthOn_sum)
  have rest: "series ?dvm as ?cur ds =
      map (\<lambda>d. \<lparr>date_p = d, totalNetWorth = toFixed2 (netWorthOn as d)\<rparr>) ds"
  proof (rule Cons.IH [of ?P ?cur])
    show "sorted ds" using Cons.prems(1) by simp
    show "distinct ds" using Cons.prems(2) by simp
    show "\<forall>p \<in> ?P. \<forall>x \<in> set ds. p < x" using Cons.prems(3) dds by auto
    show "?P \<union> set ds = allDates as" using Cons.prems(4) by auto
    show "distinct (map fst ?cur)" by (rule dist)
    show "fst ` set ?cur \<subseteq> id_a ` set as" by (rule keys)
    show "\<forall>a \<in> set as. map_of ?cur (id_a a) = knownAfter a ?P" by (rule inv)
  qed
  show ?case by (simp add: Let_def total rest)
qed

lemma uniqueDates_sorted:
  "js_sort date_minus (map fst (populateDailyValues as)) = sorted_list_of_set (allDates as)"
proof -
  have "js_sort date_minus xs = sort xs" for xs :: "isodate list"
    using js_sort_by_date [of "\<lambda>x. x" xs] by simp
  moreover have "sort (map fst (populateDailyValues as)) = sorted_list_of_set (allDates as)"
    using distinct_populate [of as] keys_populate [of as]
    by (metis distinct_remdups_id set_map sorted_list_of_set_sort_remdups)
  ultimately show ?thesis by simp
qed

text \<open>
  C1. For every collection of assets (with distinct document ids), the series of the
  Value History Merger has exactly one point per distinct date that occurs in any asset's
  \<open>valueHistory\<close>, in ascending date order, and the \<open>totalNetWorth\<close> of a date is the sum,
  rounded to 2 decimals, over the assets that have an entry dated on or before it, of the
  value of the most recent such entry (carried forward); an asset without such an entry
  adds nothing. The witness is the example of assets A and B, whose series is
  (2024-01-01, 100), (2024-01-02, 150).
\<close>

theorem net_worth_series:
  assumes "distinct (map id_a as)"
  shows "chartData (calculateNetWorthHistory as) =
           map (\<lambda>d. \<lparr>date_p = d, totalNetWorth = toFixed2 (netWorthOn as d)\<rparr>)
             (sorted_list_of_set (allDates as))"
proof -
  have fin: "finite (allDates as)" by (simp add: allDates_def)
  have "series (populateDailyValues as) as [] (sorted_list_of_set (allDates as)) =
      map (\<lambda>d. \<lparr>date_p = d, totalNetWorth = toFixed2 (netWorthOn as d)\<rparr>)
        (sorted_list_of_set (allDates as))"
    by (rule series_spec [OF assms, where P = "{}"])
       (simp_all add: fin knownAfter_def)
  then show ?thesis
    by (simp add: calculateNetWorthHistory_def Let_def aggregate_series uniqueDates_sorted)
qed

lemma example_dates:
  "sorted_list_of_set (allDates [assetA, assetB]) = [(2024, 1, 1), (2024, 1, 2)]"
proof -
  have "allDates [assetA, assetB] = set [(2024, 1, 1), (2024, 1, 2)]"
    by (auto simp: allDates_def historyOf_def assetA_def assetB_def)
  then show ?thesis
    by (simp only: sorted_list_of_set_sort_remdups) simp
qed

theorem net_worth_series_witness:
  "distinct (map id_a [assetA, assetB]) \<and>
   chartData (calculateNetWorthHistory [assetA, assetB]) =
     [\<lparr>date_p = (2024, 1, 1), totalNetWorth = 100\<rparr>,
      \<lparr>date_p = (2024, 1, 2), totalNetWorth = 150\<rparr>]"
proof -
  have d: "distinct (map id_a [assetA, assetB])"
    by (simp add: assetA_def assetB_def)
  have 1: "netWorthOn [assetA, assetB] (2024, 1, 1) = 100"
    by (simp add: netWorthOn_def List.map_filter_simps latestOnOrBefore_def
        sortedValueHistory_sort_key historyOf_def assetA_def assetB_def)
  have 2: "netWorthOn [assetA, assetB] (2024, 1, 2) = 150"
    by (simp add: netWorthOn_def List.map_filter_simps latestOnOrBefore_def
        sortedValueHistory_sort_key historyOf_def assetA_def assetB_def)
  have 3: "toFixed2 100 = 100" using toFixed2_cents [of 10000] by simp
  have 4: "toFixed2 150 = 150" using toFixed2_cents [of 15000] by simp
  have "chartData (calculateNetWorthHistory [assetA, assetB]) =
     [\<lparr>date_p = (2024, 1, 1), totalNetWorth = 100\<rparr>,
      \<lparr>date_p = (2024, 1, 2), totalNetWorth = 150\<rparr>]"
    using net_worth_series [OF d] by (simp only: example_dates list.map 1 2 3 4)
  with d show ?thesis by (rule conjI)
qed

section \<open>Value History Merger: the breakdown\<close>

lemma update_absent: "k \<notin> fst ` set al \<Longrightarrow> AList.update k v al = al @ [(k, v)]"
  by (induction al) auto

lemma set_update_subset: "set (AList.update k v al) \<subseteq> insert (k, v) (set al)"
  by (induction al) auto

lemma rebuild_object:
  "distinct (map fst inner) \<Longrightarrow>
   foldl (\<lambda>obj (k, v). AList.update k v obj) [] inner = (inner :: valueMap)"
proof (induction inner rule: rev_induct)
  case Nil
  then show ?case by simp
next
  case (snoc x xs)
  then have "foldl (\<lambda>obj (k, v). AList.update k v obj) [] xs = xs"
    and "fst x \<notin> fst ` set xs" by simp_all
  then show ?case by (cases x) (simp add: update_absent)
qed

lemma inner_distinct_recordEntry:
  assumes "\<forall>p \<in> set dvm. distinct (map fst (snd p))"
  shows "\<forall>p \<in> set (recordEntry i dvm e). distinct (map fst (snd p))"
proof
  fix p assume p: "p \<in> set (recordEntry i dvm e)"
  let ?d = "date_e e"
  let ?m = "if map_of dvm ?d = None then dvm @ [(?d, [])] else dvm"
  let ?inner = "case map_of ?m ?d of None \<Rightarrow> [] | Some inner \<Rightarrow> inner"
  have m: "\<forall>q \<in> set ?m. distinct (map fst (snd q))" using assms by simp
  have "distinct (map fst ?inner)"
  proof (cases "map_of ?m ?d")
    case None
    then show ?thesis by simp
  next
    case (Some inner)
    then have "(?d, inner) \<in> set ?m" by (rule map_of_SomeD)
    with m Some show ?thesis by force
  qed
  then have u: "distinct (map fst (AList.update i (value_e e) ?inner))"
    by (rule distinct_update)
  have "p \<in> insert (?d, AList.update i (value_e e) ?inner) (set ?m)"
    using p set_update_subset [of ?d "AList.update i (value_e e) ?inner" ?m]
    by (auto simp: recordEntry_def Let_def)
  with u m show "distinct (map fst (snd p))" by auto
qed

lemma inner_distinct_populate:
  "\<forall>p \<in> set (populateDailyValues as). distinct (map fst (snd p))"
proof -
  have e: "\<forall>p \<in> set dvm. distinct (map fst (snd p)) \<Longrightarrow>
        \<forall>p \<in> set (foldl (recordEntry i) dvm es). distinct (map fst (snd p))" for i dvm es
  proof (induction es arbitrary: dvm)
    case Nil
    then show ?case by simp
  next
    case (Cons x es)
    from Cons.prems have "\<forall>p \<in> set (recordEntry i dvm x). distinct (map fst (snd p))"
      by (rule inner_distinct_recordEntry)
    then show ?case using Cons.IH by simp
  qed
  have "\<forall>p \<in> set dvm0. distinct (map fst (snd p)) \<Longrightarrow>
        \<forall>p \<in> set (foldl (\<lambda>dvm a. foldl (recordEntry (id_a a)) dvm (sortedValueHistory a)) dvm0 as).
          distinct (map fst (snd p))" for dvm0
  proof (induction as arbitrary: dvm0)
    case Nil
    then show ?case by simp
  next
    case (Cons a as)
    from Cons.prems
    have "\<forall>p \<in> set (foldl (recordEntry (id_a a)) dvm0 (sortedValueHistory a)).
            distinct (map fst (snd p))"
      by (rule e)
    then show ?case using Cons.IH by simp
  qed
  from this [of "[]"] show ?thesis by (simp add: populateDailyValues_def)
qed

lemma detailedDailyValues_populate:
  "detailedDailyValues (calculateNetWorthHistory as) = populateDailyValues as"
proof -
  have "map (\<lambda>(d, innerMap). (d, foldl (\<lambda>obj (k, v). AList.update k v obj) [] innerMap))
          (populateDailyValues as) = populateDailyValues as"
    using inner_distinct_populate [of as]
    by (intro map_idI) (auto simp: rebuild_object)
  then show ?thesis by (simp add: calculateNetWorthHistory_def Let_def)
qed

lemma breakdown_holds_entries_of_the_day:
  assumes "distinct (map id_a as)" and "a \<in> set as"
  shows "valueOnDate (detailedDailyValues (calculateNetWorthHistory as)) d (id_a a) =
         entryValueOn a d"
  by (simp add: detailedDailyValues_populate valueOnDate_populate [OF assms])

text \<open>
  C2 on the code. The breakdown lookup is built from the first pass, the entries dated
  exactly on each day, not from the carried map that the totals use (the lemma above). For
  assets A (100 on 2024-01-01) and B (50 on 2024-01-02) the breakdown of 2024-01-02 holds B
  alone, although A has the known value 100 on that day and the total of the day is 150.
\<close>

theorem breakdown_omits_carried_asset:
  "detailedDailyValues (calculateNetWorthHistory [assetA, assetB]) =
     [((2024, 1, 1), [(''A'', 100)]), ((2024, 1, 2), [(''B'', 50)])] \<and>
   valueOnDate (detailedDailyValues (calculateNetWorthHistory [assetA, assetB])) (2024, 1, 2) ''A'' =
     None \<and>
   latestOnOrBefore assetA (2024, 1, 2) =
     Some \<lparr>date_e = (2024, 1, 1), value_e = 100, type_e = None\<rparr>"
  by (simp add: calculateNetWorthHistory_def populateDailyValues_def recordEntry_def
      sortedValueHistory_sort_key historyOf_def assetA_def assetB_def valueOnDate_def
      latestOnOrBefore_def Let_def)

end
